theory Spec2Isabelle
  imports Main
begin

unbundle bit_operations_syntax

section \<open>The uc480 camera driver: geometry negotiation\<close>

text \<open>
  A shallow embedding of \<^verbatim>\<open>pylablib/devices/uc480/uc480.py\<close>. Python integers are
  \<open>int\<close>; floor division and remainder are \<open>div\<close> and \<open>mod\<close>, which round as Python
  does for either sign, with the division by zero written out. Every exception the
  source can raise is a value of \<open>error\<close>, and a function that can raise returns
  \<open>error + 'a\<close>.
\<close>

subsection \<open>Errors and sequencing\<close>

datatype error =
    TypeError
  | ValueError
  | KeyError
  | ZeroDivisionError
  | AttributeError
  | uc480LibError int

definition bind_err :: "error + 'a \<Rightarrow> ('a \<Rightarrow> error + 'b) \<Rightarrow> error + 'b" where
  "bind_err r f = (case r of Inl e \<Rightarrow> Inl e | Inr x \<Rightarrow> f x)"

text \<open>Python's \<^verbatim>\<open>max\<close> of a list: \<^verbatim>\<open>ValueError\<close> on the empty list.\<close>

definition py_max :: "int list \<Rightarrow> error + int" where
  "py_max xs = (case xs of [] \<Rightarrow> Inl ValueError | y # ys \<Rightarrow> Inr (fold max ys y))"

text \<open>
  A method that mutates the object returns its outcome together with the object as the
  call leaves it, so that the state after an exception is part of the model.
\<close>

definition bind_act :: "(error + 'a) \<times> 's \<Rightarrow> ('a \<Rightarrow> 's \<Rightarrow> (error + 'b) \<times> 's) \<Rightarrow> (error + 'b) \<times> 's" where
  "bind_act r f = (case fst r of Inl e \<Rightarrow> (Inl e, snd r) | Inr x \<Rightarrow> f x (snd r))"

subsection \<open>Constants of the vendor header\<close>

text \<open>
  The module \<^verbatim>\<open>uc480_defs\<close> (the constants of the vendor's header) is not among the
  sources, so its members are a parameter: each enumeration is a function from the
  member's name to its value.
\<close>

record uc480_defs =
  BINNING :: "string \<Rightarrow> int"
  SUBSAMPLING :: "string \<Rightarrow> int"
  COLORMODE :: "string \<Rightarrow> int"
  ERROR :: "string \<Rightarrow> int"

datatype axis = V | H

text \<open>
  The dictionaries \<^verbatim>\<open>_subsampling_modes\<close> and \<^verbatim>\<open>_binning_modes\<close>, in the order of the
  source: the keys are (direction, factor), the values the masks. Factor 1 has mask 0
  for both directions.
\<close>

definition subsampling_modes :: "uc480_defs \<Rightarrow> ((axis \<times> int) \<times> int) list" where
  "subsampling_modes K =
    [((V, 1), 0), ((H, 1), 0),
     ((V, 2), SUBSAMPLING K ''IS_SUBSAMPLING_2X_VERTICAL''), ((H, 2), SUBSAMPLING K ''IS_SUBSAMPLING_2X_HORIZONTAL''),
     ((V, 3), SUBSAMPLING K ''IS_SUBSAMPLING_3X_VERTICAL''), ((H, 3), SUBSAMPLING K ''IS_SUBSAMPLING_3X_HORIZONTAL''),
     ((V, 4), SUBSAMPLING K ''IS_SUBSAMPLING_4X_VERTICAL''), ((H, 4), SUBSAMPLING K ''IS_SUBSAMPLING_4X_HORIZONTAL''),
     ((V, 5), SUBSAMPLING K ''IS_SUBSAMPLING_5X_VERTICAL''), ((H, 5), SUBSAMPLING K ''IS_SUBSAMPLING_5X_HORIZONTAL''),
     ((V, 6), SUBSAMPLING K ''IS_SUBSAMPLING_6X_VERTICAL''), ((H, 6), SUBSAMPLING K ''IS_SUBSAMPLING_6X_HORIZONTAL''),
     ((V, 8), SUBSAMPLING K ''IS_SUBSAMPLING_8X_VERTICAL''), ((H, 8), SUBSAMPLING K ''IS_SUBSAMPLING_8X_HORIZONTAL''),
     ((V, 16), SUBSAMPLING K ''IS_SUBSAMPLING_16X_VERTICAL''), ((H, 16), SUBSAMPLING K ''IS_SUBSAMPLING_16X_HORIZONTAL'')]"

definition binning_modes :: "uc480_defs \<Rightarrow> ((axis \<times> int) \<times> int) list" where
  "binning_modes K =
    [((V, 1), 0), ((H, 1), 0),
     ((V, 2), BINNING K ''IS_BINNING_2X_VERTICAL''), ((H, 2), BINNING K ''IS_BINNING_2X_HORIZONTAL''),
     ((V, 3), BINNING K ''IS_BINNING_3X_VERTICAL''), ((H, 3), BINNING K ''IS_BINNING_3X_HORIZONTAL''),
     ((V, 4), BINNING K ''IS_BINNING_4X_VERTICAL''), ((H, 4), BINNING K ''IS_BINNING_4X_HORIZONTAL''),
     ((V, 5), BINNING K ''IS_BINNING_5X_VERTICAL''), ((H, 5), BINNING K ''IS_BINNING_5X_HORIZONTAL''),
     ((V, 6), BINNING K ''IS_BINNING_6X_VERTICAL''), ((H, 6), BINNING K ''IS_BINNING_6X_HORIZONTAL''),
     ((V, 8), BINNING K ''IS_BINNING_8X_VERTICAL''), ((H, 8), BINNING K ''IS_BINNING_8X_HORIZONTAL''),
     ((V, 16), BINNING K ''IS_BINNING_16X_VERTICAL''), ((H, 16), BINNING K ''IS_BINNING_16X_HORIZONTAL'')]"

text \<open>
  The loop shared by the two getters: \<^verbatim>\<open>supp[d].add(s)\<close> for every entry whose mask is
  contained in the reported mask, then \<^verbatim>\<open>sorted(supp[d])\<close>.
\<close>

definition supp_factors :: "((axis \<times> int) \<times> int) list \<Rightarrow> int \<Rightarrow> axis \<Rightarrow> int list" where
  "supp_factors table all_modes d =
     sort (remdups (map (\<lambda>e. snd (fst e))
       (filter (\<lambda>e. fst (fst e) = d \<and> all_modes AND snd e = snd e) table)))"

subsection \<open>The device and the camera object\<close>

text \<open>
  Modelled from the spec: the vendor SDK binding \<^verbatim>\<open>uc480_lib\<close> is not among the sources;
  the device is the spec's opaque Device collaborator. Its state holds what the queries of
  the driver read back: the sensor size, the AOI limits and rectangle, the capability
  masks and the registers of binning and subsampling, the color mode, the image memories
  and the capture sequence. Binning and subsampling are mutually exclusive, setting one
  resets the other to factor 1 on both axes (the docstrings of \<^verbatim>\<open>set_binning\<close> and
  \<^verbatim>\<open>set_subsampling\<close>: "Automatically turns off subsampling", "Automatically turns off
  binning"): writing one of the two registers with a mask other than 0 clears the other.
  \<open>color_response\<close> is how the device answers a request to set a color mode;
  \<open>mem_rejects\<close> says which calls of \<^verbatim>\<open>is_AllocImageMem\<close>, counted from 0, it rejects.
\<close>

datatype set_response = Accept | Substitute int | Reject int

record device =
  nMaxWidth :: int
  nMaxHeight :: int
  aoi_size_min :: "int \<times> int"
  aoi_size_inc :: "int \<times> int"
  aoi_pos_inc :: "int \<times> int"
  aoi_rect :: "int \<times> int \<times> int \<times> int"
  supported_binning :: int
  supported_subsampling :: int
  binning_reg :: int
  subsampling_reg :: int
  color_mode :: int
  color_response :: "int \<Rightarrow> set_response"
  mem_rejects :: "nat \<Rightarrow> bool"
  alloc_calls :: nat
  allocated :: "(nat \<times> nat) list"
  sequence :: "(nat \<times> nat) list"
  image_info :: "nat \<Rightarrow> int \<times> int"
  live :: bool
  sequence_cnt :: int

text \<open>
  The attributes of the camera object: \<^verbatim>\<open>_buffers\<close>, \<^verbatim>\<open>_acq_in_progress\<close>,
  \<^verbatim>\<open>_roi_binning_mode\<close>, and the acquired-frames count of \<^verbatim>\<open>_frame_counter\<close>.
\<close>

record camera =
  dev :: device
  roi_binning_mode :: string
  buffers :: "(nat \<times> nat) list option"
  acq_in_progress :: bool
  frames_acquired :: int

text \<open>
  Modelled from the spec: the calls of the SDK binding. A set request is refused with an
  error code (\<^verbatim>\<open>check=True\<close> turns a code other than 0 into \<^verbatim>\<open>uc480LibError\<close>); the code
  of a refused geometry or memory request is -1. The factor read back from a register is
  that of the first non-zero mask of the axis contained in it, and 1 when there is none.
\<close>

definition lib_check :: "int \<Rightarrow> error + unit" where
  "lib_check code = (if code = 0 then Inr () else Inl (uc480LibError code))"


definition is_GetColorMode :: "device \<Rightarrow> int" where
  "is_GetColorMode d = color_mode d"

definition is_SetSubSampling :: "device \<Rightarrow> int \<Rightarrow> int \<times> device" where
  "is_SetSubSampling d msk =
    (if supported_subsampling d AND msk = msk
     then (0, d\<lparr>subsampling_reg := msk,
                 binning_reg := (if msk \<noteq> 0 then 0 else binning_reg d)\<rparr>)
     else (-1, d))"

definition is_SetBinning :: "device \<Rightarrow> int \<Rightarrow> int \<times> device" where
  "is_SetBinning d msk =
    (if supported_binning d AND msk = msk
     then (0, d\<lparr>binning_reg := msk,
                 subsampling_reg := (if msk \<noteq> 0 then 0 else subsampling_reg d)\<rparr>)
     else (-1, d))"

definition factor_of_mask :: "((axis \<times> int) \<times> int) list \<Rightarrow> int \<Rightarrow> axis \<Rightarrow> int" where
  "factor_of_mask table reg d =
    (case filter (\<lambda>e. fst (fst e) = d \<and> snd e \<noteq> 0 \<and> reg AND snd e = snd e) table of
       [] \<Rightarrow> 1
     | e # _ \<Rightarrow> snd (fst e))"

definition is_AllocImageMem :: "device \<Rightarrow> int \<Rightarrow> int \<Rightarrow> int \<Rightarrow> (error + nat \<times> nat) \<times> device" where
  "is_AllocImageMem d width height bpp =
    (let k = alloc_calls d; d1 = d\<lparr>alloc_calls := Suc k\<rparr>
     in if mem_rejects d k then (Inl (uc480LibError (-1)), d1)
        else (Inr (Suc k, Suc k), d1\<lparr>allocated := allocated d1 @ [(Suc k, Suc k)]\<rparr>))"

definition is_AddToSequence :: "device \<Rightarrow> nat \<times> nat \<Rightarrow> device" where
  "is_AddToSequence d b = d\<lparr>sequence := sequence d @ [b]\<rparr>"

definition is_ClearSequence :: "device \<Rightarrow> device" where
  "is_ClearSequence d = d\<lparr>sequence := []\<rparr>"

definition is_FreeImageMem :: "device \<Rightarrow> nat \<times> nat \<Rightarrow> device" where
  "is_FreeImageMem d b = d\<lparr>allocated := removeAll b (allocated d)\<rparr>"

subsection \<open>Factor truncation\<close>

definition truncate_subsampling :: "int \<Rightarrow> int \<Rightarrow> int list \<times> int list \<Rightarrow> error + (int \<times> int)" where
  "truncate_subsampling hsub vsub all_modes =
    (let hsub1 = max hsub 1;
         vsub1 = max vsub 1;
         hmodes = fst all_modes;
         vmodes = snd all_modes
     in bind_err (py_max (filter (\<lambda>m. m \<le> hsub1) hmodes)) (\<lambda>hsub2.
        bind_err (py_max (filter (\<lambda>m. m \<le> vsub1) vmodes)) (\<lambda>vsub2.
        Inr (hsub2, vsub2))))"

definition get_supported_subsampling_modes :: "uc480_defs \<Rightarrow> camera \<Rightarrow> int list \<times> int list" where
  "get_supported_subsampling_modes K c =
    (let all_modes = supported_subsampling (dev c)
     in (supp_factors (subsampling_modes K) all_modes H,
         supp_factors (subsampling_modes K) all_modes V))"

text \<open>The binning getter ends with \<^verbatim>\<open>return sorted(supp["v"]),sorted(supp["h"])\<close>.\<close>

definition get_supported_binning_modes :: "uc480_defs \<Rightarrow> camera \<Rightarrow> int list \<times> int list" where
  "get_supported_binning_modes K c =
    (let all_modes = supported_binning (dev c)
     in (supp_factors (binning_modes K) all_modes V,
         supp_factors (binning_modes K) all_modes H))"

definition truncate_roi_binning :: "uc480_defs \<Rightarrow> camera \<Rightarrow> int \<Rightarrow> int \<Rightarrow> error + (int \<times> int)" where
  "truncate_roi_binning K c hbin vbin =
    (let all_modes = (if roi_binning_mode c = ''subsample''
                      then get_supported_subsampling_modes K c
                      else get_supported_binning_modes K c)
     in truncate_subsampling hbin vbin all_modes)"

subsection \<open>ROI truncation\<close>

definition get_detector_size :: "camera \<Rightarrow> int \<times> int" where
  "get_detector_size c = (nMaxWidth (dev c), nMaxHeight (dev c))"

definition get_roi_limits_axes :: "camera \<Rightarrow> (int \<times> int \<times> int) \<times> (int \<times> int \<times> int)" where
  "get_roi_limits_axes c =
    (let smin = aoi_size_min (dev c);
         sstep = aoi_size_inc (dev c);
         pstep = aoi_pos_inc (dev c)
     in ((fst smin, fst sstep, fst pstep), (snd smin, snd sstep, snd pstep)))"

text \<open>
  \<^verbatim>\<open>_adj_roi_axis\<close>, statement by statement; the three floor divisions by \<open>binv\<close> and the
  remainders by \<open>pstep\<close> and \<open>wstep\<close> raise \<^verbatim>\<open>ZeroDivisionError\<close> on a zero divisor.
\<close>

definition adj_roi_axis ::
  "int \<Rightarrow> int option \<Rightarrow> int \<Rightarrow> int \<Rightarrow> int \<Rightarrow> int \<Rightarrow> int \<Rightarrow> error + (int \<times> int)" where
  "adj_roi_axis start end0 minsize detsize0 wstep pstep binv =
    (let end1 = (case end0 of None \<Rightarrow> detsize0 | Some e \<Rightarrow> e) in
     if binv = 0 then Inl ZeroDivisionError else
     let start1 = start div binv;
         end2 = end1 div binv;
         detsize = detsize0 div binv;
         end3 = min end2 detsize;
         start2 = min start1 detsize in
     if pstep = 0 then Inl ZeroDivisionError else
     let start3 = start2 - start2 mod pstep;
         end4 = end3 - end3 mod pstep in
     if wstep = 0 then Inl ZeroDivisionError else
     let end5 = end4 - (end4 - start3) mod wstep;
         end6 = (if end5 - start3 < minsize then start3 + minsize else end5)
     in if end6 > detsize
        then Inr ((detsize - minsize) * binv, detsize * binv)
        else Inr (start3 * binv, end6 * binv))"

type_synonym roi_request = "int \<times> int option \<times> int \<times> int option \<times> int \<times> int"
type_synonym roi = "int \<times> int \<times> int \<times> int \<times> int \<times> int"

definition trunc_roi :: "uc480_defs \<Rightarrow> camera \<Rightarrow> roi_request \<Rightarrow> error + roi" where
  "trunc_roi K c r =
    (case r of (hstart, hend, vstart, vend, hbin, vbin) \<Rightarrow>
     let wdet = fst (get_detector_size c);
         hdet = snd (get_detector_size c)
     in bind_err (truncate_roi_binning K c hbin vbin) (\<lambda>hv.
        let hbin1 = fst hv;
            vbin1 = snd hv;
            hlims = fst (get_roi_limits_axes c);
            vlims = snd (get_roi_limits_axes c)
        in bind_err (adj_roi_axis hstart hend (fst hlims) wdet (fst (snd hlims)) (snd (snd hlims)) hbin1) (\<lambda>hse.
           bind_err (adj_roi_axis vstart vend (fst vlims) hdet (fst (snd vlims)) (snd (snd vlims)) vbin1) (\<lambda>vse.
           Inr (fst hse, snd hse, fst vse, snd vse, hbin1, vbin1)))))"


subsection \<open>Binning and subsampling setters\<close>

text \<open>
  Modelled from the spec: \<^verbatim>\<open>interface.EnumParameterClass\<close> is not among the sources. The
  call \<^verbatim>\<open>_p_subsampling_mode(key)\<close> looks the key up in the dictionary the class was built
  from, and a key that is not there is an error.
\<close>

definition p_mode :: "((axis \<times> int) \<times> int) list \<Rightarrow> axis \<times> int \<Rightarrow> error + int" where
  "p_mode table key = (case map_of table key of None \<Rightarrow> Inl KeyError | Some msk \<Rightarrow> Inr msk)"

definition get_subsampling :: "uc480_defs \<Rightarrow> camera \<Rightarrow> int \<times> int" where
  "get_subsampling K c =
    (let hsub = factor_of_mask (subsampling_modes K) (subsampling_reg (dev c)) H;
         vsub = factor_of_mask (subsampling_modes K) (subsampling_reg (dev c)) V
     in (hsub, vsub))"

definition get_binning :: "uc480_defs \<Rightarrow> camera \<Rightarrow> int \<times> int" where
  "get_binning K c =
    (let hbin = factor_of_mask (binning_modes K) (binning_reg (dev c)) H;
         vbin = factor_of_mask (binning_modes K) (binning_reg (dev c)) V
     in (hbin, vbin))"

definition set_subsampling :: "uc480_defs \<Rightarrow> camera \<Rightarrow> int \<Rightarrow> int \<Rightarrow> (error + int \<times> int) \<times> camera" where
  "set_subsampling K c hsub vsub =
    bind_act (truncate_subsampling hsub vsub (get_supported_subsampling_modes K c), c) (\<lambda>hv c.
    bind_act (bind_err (p_mode (subsampling_modes K) (H, fst hv)) (\<lambda>mh.
              bind_err (p_mode (subsampling_modes K) (V, snd hv)) (\<lambda>mv. Inr (mh OR mv))), c) (\<lambda>msk c.
    let r = is_SetSubSampling (dev c) msk
    in bind_act (lib_check (fst r), c\<lparr>dev := snd r\<rparr>) (\<lambda>_ c.
       (Inr (get_subsampling K c), c))))"

definition set_binning :: "uc480_defs \<Rightarrow> camera \<Rightarrow> int \<Rightarrow> int \<Rightarrow> (error + int \<times> int) \<times> camera" where
  "set_binning K c hbin vbin =
    bind_act (truncate_subsampling hbin vbin (get_supported_binning_modes K c), c) (\<lambda>hv c.
    bind_act (bind_err (p_mode (binning_modes K) (H, fst hv)) (\<lambda>mh.
              bind_err (p_mode (binning_modes K) (V, snd hv)) (\<lambda>mv. Inr (mh OR mv))), c) (\<lambda>msk c.
    let r = is_SetBinning (dev c) msk
    in bind_act (lib_check (fst r), c\<lparr>dev := snd r\<rparr>) (\<lambda>_ c.
       (Inr (get_binning K c), c))))"

definition get_roi_binning :: "uc480_defs \<Rightarrow> camera \<Rightarrow> int \<times> int" where
  "get_roi_binning K c =
    (if roi_binning_mode c = ''subsample'' then get_subsampling K c else get_binning K c)"

text \<open>\<^verbatim>\<open>_set_roi_binning\<close>; the setter called without arguments takes its defaults 1, 1.\<close>

definition set_roi_binning :: "uc480_defs \<Rightarrow> camera \<Rightarrow> int \<Rightarrow> int \<Rightarrow> (error + unit) \<times> camera" where
  "set_roi_binning K c hbin vbin =
    (if roi_binning_mode c = ''subsample''
     then bind_act (set_subsampling K c hbin vbin) (\<lambda>_ c.
          bind_act (set_binning K c 1 1) (\<lambda>_ c. (Inr (), c)))
     else bind_act (set_subsampling K c 1 1) (\<lambda>_ c.
          bind_act (set_binning K c hbin vbin) (\<lambda>_ c. (Inr (), c))))"

subsection \<open>Color modes\<close>

definition color_modes :: "uc480_defs \<Rightarrow> (string \<times> int) list" where
  "color_modes K =
    [(''raw8'', COLORMODE K ''IS_CM_SENSOR_RAW8''), (''raw10'', COLORMODE K ''IS_CM_SENSOR_RAW10''),
     (''raw12'', COLORMODE K ''IS_CM_SENSOR_RAW12''), (''raw16'', COLORMODE K ''IS_CM_SENSOR_RAW16''),
     (''mono8'', COLORMODE K ''IS_CM_MONO8''), (''mono10'', COLORMODE K ''IS_CM_MONO10''),
     (''mono12'', COLORMODE K ''IS_CM_MONO12''), (''mono16'', COLORMODE K ''IS_CM_MONO16''),
     (''bgr5p'', COLORMODE K ''IS_CM_BGR5_PACKED''), (''bgr565p'', COLORMODE K ''IS_CM_BGR565_PACKED''),
     (''rgb8p'', COLORMODE K ''IS_CM_RGB8_PACKED''), (''bgr8p'', COLORMODE K ''IS_CM_BGR8_PACKED''),
     (''rgba8p'', COLORMODE K ''IS_CM_RGBA8_PACKED''), (''bgra8p'', COLORMODE K ''IS_CM_BGRA8_PACKED''),
     (''rgby8p'', COLORMODE K ''IS_CM_RGBY8_PACKED''), (''bgry8p'', COLORMODE K ''IS_CM_BGRY8_PACKED''),
     (''rgb10p'', COLORMODE K ''IS_CM_RGB10_PACKED''), (''bgr10p'', COLORMODE K ''IS_CM_BGR10_PACKED''),
     (''rgb10up'', COLORMODE K ''IS_CM_RGB10_UNPACKED''), (''bgr10up'', COLORMODE K ''IS_CM_BGR10_UNPACKED''),
     (''rgb12up'', COLORMODE K ''IS_CM_RGB12_UNPACKED''), (''bgr12up'', COLORMODE K ''IS_CM_BGR12_UNPACKED''),
     (''rgba12up'', COLORMODE K ''IS_CM_RGBA12_UNPACKED''), (''bgra12up'', COLORMODE K ''IS_CM_BGRA12_UNPACKED''),
     (''cbycryp'', COLORMODE K ''IS_CM_CBYCRY_PACKED''), (''uyuvp'', COLORMODE K ''IS_CM_UYVY_PACKED''),
     (''uyvy_monop'', COLORMODE K ''IS_CM_UYVY_MONO_PACKED''), (''uyuv_bayerp'', COLORMODE K ''IS_CM_UYVY_BAYER_PACKED''),
     (''jpeg'', COLORMODE K ''IS_CM_JPEG''), (''rgb8plan'', COLORMODE K ''IS_CM_RGB8_PLANAR'')]"






text \<open>
  Modelled from the spec: the inverse lookup of \<^verbatim>\<open>interface.EnumParameterClass\<close>, which is
  not among the sources. \<^verbatim>\<open>get_color_mode\<close> returns the name of a code of the dictionary
  and a code that is not in the dictionary as it is.
\<close>

datatype mode_value = ModeName string | ModeCode int

definition p_color_mode_i :: "uc480_defs \<Rightarrow> int \<Rightarrow> mode_value" where
  "p_color_mode_i K code =
    (case find (\<lambda>e. snd e = code) (color_modes K) of
       Some e \<Rightarrow> ModeName (fst e)
     | None \<Rightarrow> ModeCode code)"

definition get_color_mode :: "uc480_defs \<Rightarrow> camera \<Rightarrow> mode_value" where
  "get_color_mode K c = p_color_mode_i K (is_GetColorMode (dev c))"

definition mode_properties :: "(string \<times> (int \<times> int) option) list" where
  "mode_properties =
    [(''raw8'', Some (8, 1)), (''raw10'', Some (16, 1)), (''raw12'', Some (16, 1)), (''raw16'', Some (16, 1)),
     (''mono8'', Some (8, 1)), (''mono10'', Some (16, 1)), (''mono12'', Some (16, 1)), (''mono16'', Some (16, 1)),
     (''bgr5p'', Some (16, 1)), (''bgr565p'', Some (16, 1)), (''rgb8p'', Some (24, 3)), (''bgr8p'', Some (24, 3)),
     (''rgba8p'', Some (32, 4)), (''bgra8p'', Some (32, 4)), (''rgby8p'', Some (32, 4)), (''bgry8p'', Some (32, 4)),
     (''rgb10p'', Some (24, 1)), (''bgr10p'', Some (24, 1)), (''rgb10up'', Some (48, 3)), (''bgr10up'', Some (48, 3)),
     (''rgb12up'', Some (48, 3)), (''bgr12up'', Some (48, 3)), (''rgba12up'', Some (64, 4)), (''bgra12up'', Some (64, 4)),
     (''cbycryp'', None), (''uyuvp'', Some (32, 4)), (''uyvy_monop'', Some (32, 4)), (''uyuv_bayerp'', Some (32, 4)),
     (''jpeg'', None), (''rgb8plan'', None)]"

text \<open>
  \<^verbatim>\<open>_get_pixel_mode_settings\<close> as the driver calls it, without a mode. A mode that is not a
  key of \<^verbatim>\<open>_color_modes\<close> is a bare code; its low seven bits are looked up again.
\<close>

definition get_pixel_mode_settings :: "uc480_defs \<Rightarrow> camera \<Rightarrow> error + (int \<times> int) option" where
  "get_pixel_mode_settings K c =
    (let mode = get_color_mode K c;
         mode1 = (case mode of
                    ModeName n \<Rightarrow> mode
                  | ModeCode m \<Rightarrow> p_color_mode_i K (m AND 127))
     in case mode1 of
          ModeName n \<Rightarrow> (case map_of mode_properties n of None \<Rightarrow> Inl KeyError | Some p \<Rightarrow> Inr p)
        | ModeCode m \<Rightarrow> Inl KeyError)"

subsection \<open>Buffers\<close>

definition get_roi :: "uc480_defs \<Rightarrow> camera \<Rightarrow> roi" where
  "get_roi K c =
    (case aoi_rect (dev c) of (x, y, w, h) \<Rightarrow>
     let hbin = fst (get_roi_binning K c);
         vbin = snd (get_roi_binning K c)
     in (x * hbin, (x + w) * hbin, y * vbin, (y + h) * vbin, hbin, vbin))"

definition get_data_dimensions_rc :: "uc480_defs \<Rightarrow> camera \<Rightarrow> error + (int \<times> int)" where
  "get_data_dimensions_rc K c =
    (case get_roi K c of (hs, he, vs, ve, hbin, vbin) \<Rightarrow>
     if vbin = 0 \<or> hbin = 0 then Inl ZeroDivisionError
     else Inr ((ve - vs) div vbin, (he - hs) div hbin))"

definition deallocate_buffers :: "camera \<Rightarrow> camera" where
  "deallocate_buffers c =
    (case buffers c of
       None \<Rightarrow> c
     | Some bs \<Rightarrow>
         c\<lparr>dev := fold (\<lambda>b d. is_FreeImageMem d b) bs (is_ClearSequence (dev c)),
           buffers := None\<rparr>)"

text \<open>
  The loop of \<^verbatim>\<open>_allocate_buffers\<close>: each round allocates an image memory, appends it to
  \<^verbatim>\<open>_buffers\<close> and adds it to the sequence. An exception of the allocation leaves the
  loop with \<^verbatim>\<open>_buffers\<close> as the rounds before left it.
\<close>

fun alloc_loop :: "nat \<Rightarrow> int \<times> int \<Rightarrow> int \<Rightarrow> camera \<Rightarrow> (error + unit) \<times> camera" where
  "alloc_loop 0 frame_size bpp c = (Inr (), c)"
| "alloc_loop (Suc k) frame_size bpp c =
    (let r = is_AllocImageMem (dev c) (fst frame_size) (snd frame_size) bpp;
         c1 = c\<lparr>dev := snd r\<rparr>
     in case fst r of
          Inl e \<Rightarrow> (Inl e, c1)
        | Inr b \<Rightarrow>
            (case buffers c1 of
               None \<Rightarrow> (Inl AttributeError, c1)
             | Some bs \<Rightarrow>
                 (let c2 = c1\<lparr>buffers := Some (bs @ [b])\<rparr>;
                      c3 = c2\<lparr>dev := is_AddToSequence (dev c2) b\<rparr>
                  in alloc_loop k frame_size bpp c3)))"

definition allocate_buffers :: "uc480_defs \<Rightarrow> camera \<Rightarrow> int \<Rightarrow> (error + int) \<times> camera" where
  "allocate_buffers K c n =
    (let c1 = deallocate_buffers c
     in bind_act (get_data_dimensions_rc K c1, c1) (\<lambda>dims c.
        let frame_size = (snd dims, fst dims)
        in bind_act (get_pixel_mode_settings K c, c) (\<lambda>pm c.
           case pm of
             None \<Rightarrow> (Inl TypeError, c)
           | Some p \<Rightarrow>
               (let bpp = fst p
                in bind_act (alloc_loop (nat n) frame_size bpp (c\<lparr>buffers := Some []\<rparr>)) (\<lambda>_ c.
                   (Inr n, c))))))"

subsection \<open>Acquisition\<close>

definition get_acquired_frames :: "camera \<Rightarrow> int" where
  "get_acquired_frames c = sequence_cnt (dev c)"

text \<open>
  \<^verbatim>\<open>stop_acquisition\<close> tests \<^verbatim>\<open>self._acq_in_progress()\<close>: it calls the attribute, which
  \<^verbatim>\<open>__init__\<close>, \<^verbatim>\<open>start_acquisition\<close> and \<^verbatim>\<open>stop_acquisition\<close> itself set to a \<^verbatim>\<open>bool\<close>.
  Calling a \<^verbatim>\<open>bool\<close> raises \<^verbatim>\<open>TypeError\<close>.
\<close>

definition py_call_bool :: "bool \<Rightarrow> error + bool" where
  "py_call_bool b = Inl TypeError"

definition stop_acquisition :: "camera \<Rightarrow> (error + unit) \<times> camera" where
  "stop_acquisition c =
    bind_act (py_call_bool (acq_in_progress c), c) (\<lambda>running c.
      if running
      then (let c1 = c\<lparr>frames_acquired := get_acquired_frames c\<rparr>;
                c2 = c1\<lparr>dev := (dev c1)\<lparr>live := False\<rparr>\<rparr>
            in (Inr (), c2\<lparr>acq_in_progress := False\<rparr>))
      else (Inr (), c))"

text \<open>
  The attributes as \<^verbatim>\<open>__init__\<close> assigns them before it opens the device:
  \<^verbatim>\<open>_buffers=None\<close> and \<^verbatim>\<open>_acq_in_progress=True\<close>.
\<close>

definition init_attributes :: "device \<Rightarrow> string \<Rightarrow> camera" where
  "init_attributes d mode =
    \<lparr>dev = d, roi_binning_mode = mode, buffers = None, acq_in_progress = True, frames_acquired = 0\<rparr>"

subsection \<open>Frame decoding\<close>

record ndarray =
  shape :: "int list"
  dtype :: string

definition np_dtypes :: "(int \<times> string) list" where
  "np_dtypes = [(8, ''u1''), (16, ''<u2''), (32, ''<u4'')]"

text \<open>The size in bytes of an element of each of these numpy types.\<close>

definition itemsize :: "string \<Rightarrow> nat" where
  "itemsize dt = (if dt = ''u1'' then 1 else if dt = ''<u2'' then 2 else if dt = ''<u4'' then 4 else 0)"

definition read_buffer :: "uc480_defs \<Rightarrow> camera \<Rightarrow> int \<Rightarrow> error + (ndarray \<times> (int \<times> int))" where
  "read_buffer K c n =
    (case buffers c of
       None \<Rightarrow> Inl TypeError
     | Some bs \<Rightarrow>
         if bs = [] then Inl ZeroDivisionError
         else
           (let buff = bs ! nat (n mod int (length bs));
                frame_info = image_info (dev c) (snd buff)
            in bind_err (get_pixel_mode_settings K c) (\<lambda>pm.
               case pm of
                 None \<Rightarrow> Inl TypeError
               | Some p \<Rightarrow>
                   (let bpp = fst p;
                        nchan = snd p;
                        shape = [snd frame_info, fst frame_info] @ (if nchan > 1 then [nchan] else [])
                    in if nchan = 0 then Inl ZeroDivisionError
                       else (case map_of np_dtypes (bpp div nchan) of
                               None \<Rightarrow> Inl KeyError
                             | Some dt \<Rightarrow> Inr (\<lparr>shape = shape, dtype = dt\<rparr>, frame_info))))))"

subsection \<open>The ROIConfig invariants\<close>

text \<open>
  The invariants of an ROI configuration in the spec's words, for one axis: after dividing
  by the factor, the span is at least \<open>minSize\<close>, the start is a multiple of
  \<open>positionStep\<close>, the span is a multiple of \<open>sizeStep\<close>, and the end does not exceed
  the detector extent divided by the factor.
\<close>

definition roi_axis_invariants :: "int \<Rightarrow> int \<Rightarrow> int \<Rightarrow> int \<Rightarrow> int \<Rightarrow> int \<Rightarrow> int \<Rightarrow> bool" where
  "roi_axis_invariants minsize detsize wstep pstep binv start end0 =
    (let s = start div binv; e = end0 div binv; d = detsize div binv
     in minsize \<le> e - s \<and> s mod pstep = 0 \<and> (e - s) mod wstep = 0 \<and> e \<le> d)"

text \<open>
  What \<^verbatim>\<open>_adj_roi_axis\<close> establishes: the start is aligned unless the window was shifted
  left to fit the detector, and the span is aligned unless it was forced to \<open>minsize\<close>.
\<close>

definition roi_axis_adjusted :: "int \<Rightarrow> int \<Rightarrow> int \<Rightarrow> int \<Rightarrow> int \<Rightarrow> int \<Rightarrow> int \<Rightarrow> bool" where
  "roi_axis_adjusted minsize detsize wstep pstep binv start end0 =
    (let s = start div binv; e = end0 div binv; d = detsize div binv
     in minsize \<le> e - s \<and> e \<le> d \<and>
        (s mod pstep = 0 \<or> s = d - minsize) \<and>
        ((e - s) mod wstep = 0 \<or> e - s = minsize))"

text \<open>
  A geometry whose steps nest: the position step divides the size step, the size step
  divides the minimal size.
\<close>

definition steps_nested :: "int \<Rightarrow> int \<Rightarrow> int \<Rightarrow> bool" where
  "steps_nested minsize wstep pstep =
    (0 < pstep \<and> 0 < wstep \<and> 0 \<le> minsize \<and> pstep dvd wstep \<and> wstep dvd minsize)"

subsection \<open>Concrete constants and devices\<close>

text \<open>
  An instance of the header's constants, one bit for each mask, and cameras on it for the
  evaluations below.
\<close>

definition enum_of :: "(string \<times> int) list \<Rightarrow> string \<Rightarrow> int" where
  "enum_of tbl n = (case map_of tbl n of Some v \<Rightarrow> v | None \<Rightarrow> 0)"

definition example_defs :: uc480_defs where
  "example_defs = \<lparr>
     BINNING = enum_of
       [(''IS_BINNING_2X_VERTICAL'', 1), (''IS_BINNING_2X_HORIZONTAL'', 2),
        (''IS_BINNING_4X_VERTICAL'', 4), (''IS_BINNING_4X_HORIZONTAL'', 8),
        (''IS_BINNING_3X_VERTICAL'', 16), (''IS_BINNING_3X_HORIZONTAL'', 32),
        (''IS_BINNING_5X_VERTICAL'', 64), (''IS_BINNING_5X_HORIZONTAL'', 128),
        (''IS_BINNING_6X_VERTICAL'', 256), (''IS_BINNING_6X_HORIZONTAL'', 512),
        (''IS_BINNING_8X_VERTICAL'', 1024), (''IS_BINNING_8X_HORIZONTAL'', 2048),
        (''IS_BINNING_16X_VERTICAL'', 4096), (''IS_BINNING_16X_HORIZONTAL'', 8192)],
     SUBSAMPLING = enum_of
       [(''IS_SUBSAMPLING_2X_VERTICAL'', 1), (''IS_SUBSAMPLING_2X_HORIZONTAL'', 2),
        (''IS_SUBSAMPLING_4X_VERTICAL'', 4), (''IS_SUBSAMPLING_4X_HORIZONTAL'', 8),
        (''IS_SUBSAMPLING_3X_VERTICAL'', 16), (''IS_SUBSAMPLING_3X_HORIZONTAL'', 32),
        (''IS_SUBSAMPLING_5X_VERTICAL'', 64), (''IS_SUBSAMPLING_5X_HORIZONTAL'', 128),
        (''IS_SUBSAMPLING_6X_VERTICAL'', 256), (''IS_SUBSAMPLING_6X_HORIZONTAL'', 512),
        (''IS_SUBSAMPLING_8X_VERTICAL'', 1024), (''IS_SUBSAMPLING_8X_HORIZONTAL'', 2048),
        (''IS_SUBSAMPLING_16X_VERTICAL'', 4096), (''IS_SUBSAMPLING_16X_HORIZONTAL'', 8192)],
     COLORMODE = enum_of
       [(''IS_CM_SENSOR_RAW8'', 11), (''IS_CM_SENSOR_RAW10'', 33),
        (''IS_CM_SENSOR_RAW12'', 27), (''IS_CM_SENSOR_RAW16'', 29),
        (''IS_CM_MONO8'', 6), (''IS_CM_MONO10'', 34),
        (''IS_CM_MONO12'', 26), (''IS_CM_MONO16'', 28),
        (''IS_CM_BGR5_PACKED'', 3), (''IS_CM_BGR565_PACKED'', 2),
        (''IS_CM_RGB8_PACKED'', 129), (''IS_CM_BGR8_PACKED'', 1),
        (''IS_CM_RGBA8_PACKED'', 128), (''IS_CM_BGRA8_PACKED'', 0),
        (''IS_CM_RGBY8_PACKED'', 152), (''IS_CM_BGRY8_PACKED'', 24),
        (''IS_CM_RGB10_PACKED'', 153), (''IS_CM_BGR10_PACKED'', 25),
        (''IS_CM_RGB10_UNPACKED'', 163), (''IS_CM_BGR10_UNPACKED'', 35),
        (''IS_CM_RGB12_UNPACKED'', 158), (''IS_CM_BGR12_UNPACKED'', 30),
        (''IS_CM_RGBA12_UNPACKED'', 159), (''IS_CM_BGRA12_UNPACKED'', 31),
        (''IS_CM_CBYCRY_PACKED'', 23), (''IS_CM_UYVY_PACKED'', 12),
        (''IS_CM_UYVY_MONO_PACKED'', 13), (''IS_CM_UYVY_BAYER_PACKED'', 14),
        (''IS_CM_JPEG'', 32), (''IS_CM_RGB8_PLANAR'', 8321)],
     ERROR = enum_of [(''IS_INVALID_COLOR_FORMAT'', 174)]
   \<rparr>"

text \<open>
  A sensor of 1280 by 1024 pixels in mode mono8 that subsamples by 2 and by 4 on both
  axes, accepts every color mode and every allocation, and reports frames of 64 by 48.
\<close>

definition example_device :: device where
  "example_device = \<lparr>
     nMaxWidth = 1280, nMaxHeight = 1024,
     aoi_size_min = (16, 16), aoi_size_inc = (4, 4), aoi_pos_inc = (2, 2),
     aoi_rect = (0, 0, 1280, 1024),
     supported_binning = 0, supported_subsampling = 15,
     binning_reg = 0, subsampling_reg = 0,
     color_mode = 6, color_response = (\<lambda>m. Accept),
     mem_rejects = (\<lambda>k. False), alloc_calls = 0, allocated = [], sequence = [],
     image_info = (\<lambda>i. (64, 48)), live = False, sequence_cnt = 0
   \<rparr>"

definition example_camera :: camera where
  "example_camera = init_attributes example_device ''subsample''"

text \<open>A detector 1278 pixels wide whose steps are all 4.\<close>

definition narrow_camera :: camera where
  "narrow_camera =
     init_attributes (example_device\<lparr>nMaxWidth := 1278, aoi_pos_inc := (4, 4)\<rparr>) ''subsample''"

text \<open>A camera whose sensor bins by 2 horizontally and not vertically.\<close>

definition hbin_camera :: camera where
  "hbin_camera = init_attributes (example_device\<lparr>supported_binning := 2\<rparr>) ''bin''"

text \<open>
  Cameras that bin and subsample by 2 on both axes: one in bin mode with subsampling by 2
  active, one in subsample mode with binning by 2 active.
\<close>

definition subsampling_active_camera :: camera where
  "subsampling_active_camera =
     init_attributes (example_device\<lparr>supported_binning := 3, supported_subsampling := 3,
       subsampling_reg := 3\<rparr>) ''bin''"

definition binning_active_camera :: camera where
  "binning_active_camera =
     init_attributes (example_device\<lparr>supported_binning := 3, supported_subsampling := 3,
       binning_reg := 3\<rparr>) ''subsample''"

text \<open>A device whose memory holds two frames: the third allocation and all later ones are rejected.\<close>

definition small_memory_camera :: camera where
  "small_memory_camera = init_attributes (example_device\<lparr>mem_rejects := (\<lambda>k. 2 \<le> k)\<rparr>) ''subsample''"



text \<open>Cameras with two buffers in the modes mono16 (code 28) and rgb10p (code 153).\<close>

definition mono16_camera :: camera where
  "mono16_camera =
     (init_attributes (example_device\<lparr>color_mode := 28\<rparr>) ''subsample'')\<lparr>buffers := Some [(1, 1), (2, 2)]\<rparr>"

definition rgb10p_camera :: camera where
  "rgb10p_camera =
     (init_attributes (example_device\<lparr>color_mode := 153\<rparr>) ''subsample'')\<lparr>buffers := Some [(1, 1), (2, 2)]\<rparr>"

section \<open>Properties\<close>

subsection \<open>Auxiliary facts\<close>

lemma bind_err_Inl [simp]: "bind_err (Inl e) f = Inl e"
  by (simp add: bind_err_def)

lemma bind_err_Inr [simp]: "bind_err (Inr x) f = f x"
  by (simp add: bind_err_def)

lemma bind_err_eq_Inr:
  "bind_err r f = Inr y \<longleftrightarrow> (\<exists>x. r = Inr x \<and> f x = Inr y)"
  by (cases r) simp_all

lemma py_max_Nil: "py_max [] = Inl ValueError"
  by (simp add: py_max_def)

lemma py_max_Cons: "py_max (y # ys) = Inr (Max (set (y # ys)))"
proof -
  have "fold max ys y = Max (set (y # ys))"
    by (simp only: Max.set_eq_fold)
  then show ?thesis
    by (simp add: py_max_def)
qed

lemma py_max_filter:
  "py_max (filter (\<lambda>m. m \<le> k) xs) =
     (if \<exists>m\<in>set xs. m \<le> k then Inr (Max {m \<in> set xs. m \<le> k}) else Inl ValueError)"
proof (cases "filter (\<lambda>m. m \<le> k) xs")
  case Nil
  then show ?thesis
    by (auto simp: py_max_Nil filter_empty_conv)
next
  case (Cons y ys)
  then have "\<exists>m\<in>set xs. m \<le> k"
    by (metis filter_empty_conv list.distinct(1))
  moreover have "set (y # ys) = {m \<in> set xs. m \<le> k}"
    using Cons by (metis set_filter)
  ultimately show ?thesis
    using Cons py_max_Cons[of y ys] by simp
qed

lemma truncate_subsampling_Max:
  "truncate_subsampling h v (hm, vm) =
     (if (\<exists>m\<in>set hm. m \<le> max h 1) \<and> (\<exists>m\<in>set vm. m \<le> max v 1)
      then Inr (Max {m \<in> set hm. m \<le> max h 1}, Max {m \<in> set vm. m \<le> max v 1})
      else Inl ValueError)"
  by (simp add: truncate_subsampling_def py_max_filter Let_def)

lemma Max_below_member:
  assumes "(1::int) \<in> set xs"
  shows "Max {m \<in> set xs. m \<le> max k 1} \<in> set xs"
    and "1 \<le> Max {m \<in> set xs. m \<le> max k 1}"
    and "Max {m \<in> set xs. m \<le> max k 1} \<le> max k 1"
proof -
  let ?S = "{m \<in> set xs. m \<le> max k 1}"
  have fin: "finite ?S" by simp
  have one: "1 \<in> ?S" using assms by simp
  then have ne: "?S \<noteq> {}" by blast
  have "Max ?S \<in> ?S" using fin ne by (rule Max_in)
  then show "Max ?S \<in> set xs" and "Max ?S \<le> max k 1" by simp_all
  show "1 \<le> Max ?S" using fin one by (rule Max_ge)
qed

lemma Max_below_self:
  assumes "(b::int) \<in> set xs" "1 \<le> b"
  shows "Max {m \<in> set xs. m \<le> max b 1} = b"
proof (rule Max_eqI)
  show "finite {m \<in> set xs. m \<le> max b 1}" by simp
  show "y \<le> b" if "y \<in> {m \<in> set xs. m \<le> max b 1}" for y
    using that assms(2) by simp
  show "b \<in> {m \<in> set xs. m \<le> max b 1}"
    using assms by simp
qed

lemma truncate_subsampling_total:
  assumes "1 \<in> set hm" "1 \<in> set vm"
  shows "\<exists>h' v'. truncate_subsampling h v (hm, vm) = Inr (h', v') \<and>
           h' \<in> set hm \<and> 1 \<le> h' \<and> v' \<in> set vm \<and> 1 \<le> v'"
proof -
  have "\<exists>m\<in>set hm. m \<le> max h 1" "\<exists>m\<in>set vm. m \<le> max v 1"
    using assms by (auto intro: bexI[of _ 1])
  then have "truncate_subsampling h v (hm, vm) =
      Inr (Max {m \<in> set hm. m \<le> max h 1}, Max {m \<in> set vm. m \<le> max v 1})"
    by (simp add: truncate_subsampling_Max)
  then show ?thesis
    using Max_below_member(1,2)[OF assms(1), of h] Max_below_member(1,2)[OF assms(2), of v]
    by blast
qed

lemma truncate_subsampling_self:
  assumes "hb \<in> set hm" "1 \<le> hb" "vb \<in> set vm" "1 \<le> vb"
  shows "truncate_subsampling hb vb (hm, vm) = Inr (hb, vb)"
proof -
  have "\<exists>m\<in>set hm. m \<le> max hb 1" "\<exists>m\<in>set vm. m \<le> max vb 1"
    using assms by auto
  then show ?thesis
    using Max_below_self[OF assms(1,2)] Max_below_self[OF assms(3,4)]
    by (simp add: truncate_subsampling_Max)
qed

lemma set_supp_factors:
  "set (supp_factors table m d) = {s. \<exists>mask. ((d, s), mask) \<in> set table \<and> m AND mask = mask}"
  by (force simp: supp_factors_def)

lemma one_in_subsampling: "1 \<in> set (supp_factors (subsampling_modes K) m d)"
  unfolding set_supp_factors by (cases d) (auto simp: subsampling_modes_def)

lemma one_in_binning: "1 \<in> set (supp_factors (binning_modes K) m d)"
  unfolding set_supp_factors by (cases d) (auto simp: binning_modes_def)

lemma roi_modes_one:
  "1 \<in> set (fst (if roi_binning_mode c = ''subsample''
                  then get_supported_subsampling_modes K c
                  else get_supported_binning_modes K c))"
  "1 \<in> set (snd (if roi_binning_mode c = ''subsample''
                  then get_supported_subsampling_modes K c
                  else get_supported_binning_modes K c))"
  by (simp_all add: get_supported_subsampling_modes_def get_supported_binning_modes_def
      Let_def one_in_subsampling one_in_binning)

lemma truncate_roi_binning_total:
  "\<exists>hb vb. truncate_roi_binning K c hbin vbin = Inr (hb, vb) \<and>
     hb \<in> set (fst (if roi_binning_mode c = ''subsample''
                      then get_supported_subsampling_modes K c
                      else get_supported_binning_modes K c)) \<and> 1 \<le> hb \<and>
     vb \<in> set (snd (if roi_binning_mode c = ''subsample''
                      then get_supported_subsampling_modes K c
                      else get_supported_binning_modes K c)) \<and> 1 \<le> vb"
proof -
  let ?M = "if roi_binning_mode c = ''subsample''
            then get_supported_subsampling_modes K c
            else get_supported_binning_modes K c"
  have eq: "truncate_roi_binning K c hbin vbin = truncate_subsampling hbin vbin (fst ?M, snd ?M)"
    by (simp add: truncate_roi_binning_def)
  show ?thesis
    unfolding eq
    by (rule truncate_subsampling_total[OF roi_modes_one(1) roi_modes_one(2)])
qed

lemma align_dvd: "(p::int) dvd a - a mod p"
  by (simp add: minus_mod_eq_mult_div)

lemma adj_roi_axis_adjusted:
  assumes "binv \<noteq> 0" "pstep \<noteq> 0" "wstep \<noteq> 0"
  shows "\<exists>s e. adj_roi_axis start end0 minsize det wstep pstep binv = Inr (s, e) \<and>
           roi_axis_adjusted minsize det wstep pstep binv s e"
proof -
  define d where "d = det div binv"
  define s3 where "s3 = min (start div binv) d - min (start div binv) d mod pstep"
  define e4 where "e4 = min ((case end0 of None \<Rightarrow> det | Some e \<Rightarrow> e) div binv) d
                        - min ((case end0 of None \<Rightarrow> det | Some e \<Rightarrow> e) div binv) d mod pstep"
  define e5 where "e5 = e4 - (e4 - s3) mod wstep"
  define e6 where "e6 = (if e5 - s3 < minsize then s3 + minsize else e5)"
  have r: "adj_roi_axis start end0 minsize det wstep pstep binv =
      (if e6 > d then Inr ((d - minsize) * binv, d * binv) else Inr (s3 * binv, e6 * binv))"
    by (simp only: adj_roi_axis_def Let_def d_def s3_def e4_def e5_def e6_def assms if_False)
  have "pstep dvd s3"
    unfolding s3_def by (rule align_dvd)
  then have s3: "s3 mod pstep = 0"
    by simp
  have eq: "e5 - s3 = (e4 - s3) - (e4 - s3) mod wstep"
    by (simp add: e5_def)
  have "wstep dvd e5 - s3"
    unfolding eq by (rule align_dvd)
  then have e5: "(e5 - s3) mod wstep = 0"
    by simp
  have e6: "minsize \<le> e6 - s3"
    by (simp add: e6_def)
  have e6': "(e6 - s3) mod wstep = 0 \<or> e6 - s3 = minsize"
    using e5 by (simp add: e6_def)
  show ?thesis
  proof (cases "e6 > d")
    case True
    then have "adj_roi_axis start end0 minsize det wstep pstep binv =
        Inr ((d - minsize) * binv, d * binv)"
      using r by simp
    moreover have "roi_axis_adjusted minsize det wstep pstep binv ((d - minsize) * binv) (d * binv)"
      using assms(1) by (simp add: roi_axis_adjusted_def Let_def d_def)
    ultimately show ?thesis
      by blast
  next
    case False
    then have "adj_roi_axis start end0 minsize det wstep pstep binv = Inr (s3 * binv, e6 * binv)"
      using r by simp
    moreover have "roi_axis_adjusted minsize det wstep pstep binv (s3 * binv) (e6 * binv)"
      using assms(1) False s3 e6 e6' by (simp add: roi_axis_adjusted_def Let_def d_def)
    ultimately show ?thesis
      by blast
  qed
qed

lemma adj_roi_axis_fixpoint:
  assumes "binv \<noteq> 0" "pstep \<noteq> 0" "wstep \<noteq> 0"
    and "pstep dvd s" "pstep dvd e" "wstep dvd e - s" "minsize \<le> e - s"
    and "e \<le> det div binv" "s \<le> det div binv"
  shows "adj_roi_axis (s * binv) (Some (e * binv)) minsize det wstep pstep binv =
           Inr (s * binv, e * binv)"
proof -
  have "s mod pstep = 0" "e mod pstep = 0" "(e - s) mod wstep = 0"
    using assms(4,5,6) by simp_all
  moreover have "s * binv div binv = s" "e * binv div binv = e"
    using assms(1) by simp_all
  ultimately show ?thesis
    using assms(1,2,3,7,8,9) by (simp add: adj_roi_axis_def Let_def)
qed

lemma adj_roi_axis_stable:
  assumes "binv \<noteq> 0" "steps_nested minsize wstep pstep" "pstep dvd det div binv"
  shows "\<exists>s e. adj_roi_axis start end0 minsize det wstep pstep binv = Inr (s * binv, e * binv) \<and>
           pstep dvd s \<and> pstep dvd e \<and> wstep dvd e - s \<and> minsize \<le> e - s \<and>
           e \<le> det div binv \<and> s \<le> det div binv"
proof -
  have pos: "0 < pstep" "0 < wstep" "0 \<le> minsize" and pw: "pstep dvd wstep" and wm: "wstep dvd minsize"
    using assms(2) by (simp_all add: steps_nested_def)
  define d where "d = det div binv"
  define x where "x = min (start div binv) d"
  define y where "y = min ((case end0 of None \<Rightarrow> det | Some e \<Rightarrow> e) div binv) d"
  define s3 where "s3 = x - x mod pstep"
  define e4 where "e4 = y - y mod pstep"
  define e5 where "e5 = e4 - (e4 - s3) mod wstep"
  define e6 where "e6 = (if e5 - s3 < minsize then s3 + minsize else e5)"
  have r: "adj_roi_axis start end0 minsize det wstep pstep binv =
      (if e6 > d then Inr ((d - minsize) * binv, d * binv) else Inr (s3 * binv, e6 * binv))"
    by (simp only: adj_roi_axis_def Let_def d_def x_def y_def s3_def e4_def e5_def e6_def assms(1)
        less_imp_neq[OF pos(1), symmetric] less_imp_neq[OF pos(2), symmetric] if_False)
  have pm: "pstep dvd minsize"
    using pw wm by (rule dvd_trans)
  have pd: "pstep dvd d"
    using assms(3) by (simp add: d_def)
  have s3: "pstep dvd s3"
    unfolding s3_def by (rule align_dvd)
  have "0 \<le> x mod pstep"
    using pos(1) by simp
  then have s3d: "s3 \<le> d"
    unfolding s3_def x_def by simp
  have eq: "e5 - s3 = (e4 - s3) - (e4 - s3) mod wstep"
    by (simp add: e5_def)
  have w5: "wstep dvd e5 - s3"
    unfolding eq by (rule align_dvd)
  have w6: "wstep dvd e6 - s3"
    using w5 wm by (simp add: e6_def)
  have p6: "pstep dvd e6"
  proof -
    have "pstep dvd e6 - s3"
      using pw w6 by (rule dvd_trans)
    then have "pstep dvd (e6 - s3) + s3"
      using s3 by (rule dvd_add)
    then show ?thesis
      by simp
  qed
  have m6: "minsize \<le> e6 - s3"
    by (simp add: e6_def)
  show ?thesis
  proof (cases "e6 > d")
    case True
    then have "adj_roi_axis start end0 minsize det wstep pstep binv =
        Inr ((d - minsize) * binv, d * binv)"
      using r by simp
    moreover have "pstep dvd d - minsize"
      using pd pm by (rule dvd_diff)
    ultimately show ?thesis
      using pd wm pos(3) by (intro exI[of _ "d - minsize"] exI[of _ d]) (simp add: d_def)
  next
    case False
    then have "adj_roi_axis start end0 minsize det wstep pstep binv = Inr (s3 * binv, e6 * binv)"
      using r by simp
    moreover have "e6 \<le> det div binv" "s3 \<le> det div binv"
      using False s3d by (simp_all add: d_def)
    ultimately show ?thesis
      using s3 w6 p6 m6 by (intro exI[of _ s3] exI[of _ e6]) simp
  qed
qed

lemma adj_roi_axis_again:
  assumes "adj_roi_axis start end0 minsize det wstep pstep binv = Inr (s, e)"
    and "binv \<noteq> 0" "steps_nested minsize wstep pstep" "pstep dvd det div binv"
  shows "adj_roi_axis s (Some e) minsize det wstep pstep binv = Inr (s, e)"
proof -
  obtain s' e' where r: "adj_roi_axis start end0 minsize det wstep pstep binv = Inr (s' * binv, e' * binv)"
    and v: "pstep dvd s'" "pstep dvd e'" "wstep dvd e' - s'" "minsize \<le> e' - s'"
      "e' \<le> det div binv" "s' \<le> det div binv"
    using adj_roi_axis_stable[OF assms(2,3,4), of start end0] by blast
  have se: "s = s' * binv" "e = e' * binv"
    using assms(1) r by simp_all
  have nz: "pstep \<noteq> 0" "wstep \<noteq> 0"
    using assms(3) by (auto simp: steps_nested_def)
  show ?thesis
    unfolding se by (rule adj_roi_axis_fixpoint[OF assms(2) nz v])
qed

lemma trunc_roi_Inr_iff:
  "trunc_roi K c (hstart, hend, vstart, vend, hbin, vbin) = Inr (hs, he, vs, ve, hb, vb) \<longleftrightarrow>
     truncate_roi_binning K c hbin vbin = Inr (hb, vb) \<and>
     adj_roi_axis hstart hend (fst (aoi_size_min (dev c))) (nMaxWidth (dev c))
       (fst (aoi_size_inc (dev c))) (fst (aoi_pos_inc (dev c))) hb = Inr (hs, he) \<and>
     adj_roi_axis vstart vend (snd (aoi_size_min (dev c))) (nMaxHeight (dev c))
       (snd (aoi_size_inc (dev c))) (snd (aoi_pos_inc (dev c))) vb = Inr (vs, ve)"
  by (auto simp: trunc_roi_def get_detector_size_def get_roi_limits_axes_def Let_def bind_err_eq_Inr)

lemma bind_act_Inl [simp]: "bind_act (Inl e, s) f = (Inl e, s)"
  by (simp add: bind_act_def)

lemma bind_act_Inr [simp]: "bind_act (Inr x, s) f = f x s"
  by (simp add: bind_act_def)

lemma bind_act_eq_Inr:
  "bind_act r f = (Inr y, s') \<longleftrightarrow> (\<exists>x s. r = (Inr x, s) \<and> f x s = (Inr y, s'))"
  by (cases r; cases "fst r") (auto simp: bind_act_def)



lemma fold_free:
  "fold (\<lambda>b d. is_FreeImageMem d b) bs d = d\<lparr>allocated := filter (\<lambda>x. x \<notin> set bs) (allocated d)\<rparr>"
proof (induction bs arbitrary: d)
  case Nil
  then show ?case by simp
next
  case (Cons b bs)
  have "filter (\<lambda>x. x \<notin> set bs) (removeAll b xs) = filter (\<lambda>x. x \<notin> set (b # bs)) xs" for xs
    by (induction xs) auto
  then have h: "filter (\<lambda>x. x \<notin> set bs) (removeAll b (allocated d)) =
      filter (\<lambda>x. x \<notin> set (b # bs)) (allocated d)" .
  have "fold (\<lambda>b d. is_FreeImageMem d b) (b # bs) d = fold (\<lambda>b d. is_FreeImageMem d b) bs (is_FreeImageMem d b)"
    by simp
  also have "\<dots> = (is_FreeImageMem d b)\<lparr>allocated := filter (\<lambda>x. x \<notin> set bs) (allocated (is_FreeImageMem d b))\<rparr>"
    by (rule Cons.IH)
  also have "\<dots> = d\<lparr>allocated := filter (\<lambda>x. x \<notin> set (b # bs)) (allocated d)\<rparr>"
    using h by (simp add: is_FreeImageMem_def)
  finally show ?case .
qed

lemma deallocate_buffers_eq:
  "deallocate_buffers c =
    (case buffers c of
       None \<Rightarrow> c
     | Some bs \<Rightarrow> c\<lparr>dev := (dev c)\<lparr>sequence := [], allocated := filter (\<lambda>x. x \<notin> set bs) (allocated (dev c))\<rparr>,
                   buffers := None\<rparr>)"
  by (simp add: deallocate_buffers_def fold_free is_ClearSequence_def split: option.splits)

lemma deallocate_buffers_frame:
  "buffers (deallocate_buffers c) = None"
  "alloc_calls (dev (deallocate_buffers c)) = alloc_calls (dev c)"
  "mem_rejects (dev (deallocate_buffers c)) = mem_rejects (dev c)"
  "get_data_dimensions_rc K (deallocate_buffers c) = get_data_dimensions_rc K c"
  "get_pixel_mode_settings K (deallocate_buffers c) = get_pixel_mode_settings K c"
  by (simp_all add: deallocate_buffers_eq get_data_dimensions_rc_def get_roi_def get_roi_binning_def
      get_subsampling_def get_binning_def get_pixel_mode_settings_def get_color_mode_def
      is_GetColorMode_def split: option.splits)

lemma alloc_loop_reject:
  assumes "buffers c = Some bs" "j < n"
    and "mem_rejects (dev c) (alloc_calls (dev c) + j)"
    and "\<forall>i<j. \<not> mem_rejects (dev c) (alloc_calls (dev c) + i)"
  shows "\<exists>c' new. alloc_loop n fs bpp c = (Inl (uc480LibError (- 1)), c') \<and> length new = j \<and>
           buffers c' = Some (bs @ new) \<and>
           allocated (dev c') = allocated (dev c) @ new \<and>
           sequence (dev c') = sequence (dev c) @ new"
  using assms
proof (induction n arbitrary: c bs j)
  case 0
  then show ?case by simp
next
  case (Suc n)
  let ?k = "alloc_calls (dev c)"
  show ?case
  proof (cases j)
    case 0
    then have "mem_rejects (dev c) ?k" using Suc.prems(3) by simp
    then have "alloc_loop (Suc n) fs bpp c = (Inl (uc480LibError (- 1)), c\<lparr>dev := (dev c)\<lparr>alloc_calls := Suc ?k\<rparr>\<rparr>)"
      by (simp add: is_AllocImageMem_def Let_def)
    then show ?thesis
      using 0 Suc.prems(1) by (intro exI[of _ "c\<lparr>dev := (dev c)\<lparr>alloc_calls := Suc ?k\<rparr>\<rparr>"] exI[of _ "[]"]) simp
  next
    case (Suc j')
    let ?b = "(Suc ?k, Suc ?k)"
    let ?c3 = "c\<lparr>buffers := Some (bs @ [?b]),
                 dev := (dev c)\<lparr>alloc_calls := Suc ?k, allocated := allocated (dev c) @ [?b],
                   sequence := sequence (dev c) @ [?b]\<rparr>\<rparr>"
    have ok: "\<not> mem_rejects (dev c) ?k"
      using Suc.prems(4) Suc by (metis add.right_neutral zero_less_Suc)
    have step: "alloc_loop (Suc n) fs bpp c = alloc_loop n fs bpp ?c3"
      using ok Suc.prems(1) by (simp add: is_AllocImageMem_def is_AddToSequence_def Let_def)
    have p1: "buffers ?c3 = Some (bs @ [?b])" by simp
    have p2: "j' < n" using Suc.prems(2) Suc by simp
    have p3: "mem_rejects (dev ?c3) (alloc_calls (dev ?c3) + j')"
      using Suc.prems(3) Suc by simp
    have p4: "\<forall>i<j'. \<not> mem_rejects (dev ?c3) (alloc_calls (dev ?c3) + i)"
    proof (intro allI impI)
      fix i assume "i < j'"
      then have "Suc i < j" using Suc by simp
      then have "\<not> mem_rejects (dev c) (?k + Suc i)" using Suc.prems(4) by blast
      then show "\<not> mem_rejects (dev ?c3) (alloc_calls (dev ?c3) + i)" by simp
    qed
    obtain c' new where r: "alloc_loop n fs bpp ?c3 = (Inl (uc480LibError (- 1)), c')" "length new = j'"
        "buffers c' = Some ((bs @ [?b]) @ new)"
        "allocated (dev c') = allocated (dev ?c3) @ new"
        "sequence (dev c') = sequence (dev ?c3) @ new"
      using Suc.IH[OF p1 p2 p3 p4] by blast
    show ?thesis
      using r step Suc by (intro exI[of _ c'] exI[of _ "?b # new"]) simp
  qed
qed


lemma factor_of_mask_zero: "factor_of_mask table 0 d = 1"
proof -
  have "filter (\<lambda>e. fst (fst e) = d \<and> snd e \<noteq> 0 \<and> 0 AND snd e = snd e) table = []"
    by (auto simp: filter_empty_conv)
  then show ?thesis
    by (simp add: factor_of_mask_def)
qed

lemma p_mode_one:
  "p_mode (subsampling_modes K) (d, 1) = Inr 0"
  "p_mode (binning_modes K) (d, 1) = Inr 0"
  by (cases d; simp add: p_mode_def subsampling_modes_def binning_modes_def)+

lemma subsampling_factors_pos: "s \<in> set (supp_factors (subsampling_modes K) m d) \<Longrightarrow> 1 \<le> s"
  unfolding set_supp_factors by (auto simp: subsampling_modes_def)

lemma binning_factors_pos: "s \<in> set (supp_factors (binning_modes K) m d) \<Longrightarrow> 1 \<le> s"
  unfolding set_supp_factors by (auto simp: binning_modes_def)

lemma truncate_one:
  "truncate_subsampling 1 1 (get_supported_subsampling_modes K c) = Inr (1, 1)"
  "truncate_subsampling 1 1 (get_supported_binning_modes K c) = Inr (1, 1)"
  using truncate_subsampling_self[of 1 "fst (get_supported_subsampling_modes K c)" 1 "snd (get_supported_subsampling_modes K c)"]
    truncate_subsampling_self[of 1 "fst (get_supported_binning_modes K c)" 1 "snd (get_supported_binning_modes K c)"]
  by (simp_all add: get_supported_subsampling_modes_def get_supported_binning_modes_def Let_def
      one_in_subsampling one_in_binning)

lemma set_binning_one:
  "set_binning K c 1 1 =
     (Inr (1, 1), c\<lparr>dev := (dev c)\<lparr>binning_reg := 0, subsampling_reg := subsampling_reg (dev c)\<rparr>\<rparr>)"
  by (simp add: set_binning_def truncate_one p_mode_one is_SetBinning_def lib_check_def
      get_binning_def factor_of_mask_zero Let_def)

lemma set_subsampling_one:
  "set_subsampling K c 1 1 =
     (Inr (1, 1), c\<lparr>dev := (dev c)\<lparr>subsampling_reg := 0, binning_reg := binning_reg (dev c)\<rparr>\<rparr>)"
  by (simp add: set_subsampling_def truncate_one p_mode_one is_SetSubSampling_def lib_check_def
      get_subsampling_def factor_of_mask_zero Let_def)

lemma set_binning_keeps_zero:
  assumes "set_binning K c hbin vbin = (Inr r, c')" "subsampling_reg (dev c) = 0"
  shows "subsampling_reg (dev c') = 0"
  using assms
  by (auto simp: set_binning_def bind_act_eq_Inr is_SetBinning_def lib_check_def Let_def
      split: if_splits)

lemma set_binning_resets:
  assumes "set_binning K c hbin vbin = (Inr r, c')" "r \<noteq> (1, 1)"
  shows "get_subsampling K c' = (1, 1)"
proof -
  have k: "subsampling_reg (dev c') = 0 \<or> binning_reg (dev c') = 0" and r: "r = get_binning K c'"
    using assms(1)
    by (auto simp: set_binning_def bind_act_eq_Inr is_SetBinning_def lib_check_def Let_def
        split: if_splits)
  have "binning_reg (dev c') \<noteq> 0"
  proof
    assume "binning_reg (dev c') = 0"
    then have "r = (1, 1)"
      using r by (simp add: get_binning_def factor_of_mask_zero)
    then show False
      using assms(2) by simp
  qed
  then show ?thesis
    using k by (simp add: get_subsampling_def factor_of_mask_zero)
qed

lemma set_subsampling_resets:
  assumes "set_subsampling K c hsub vsub = (Inr r, c')" "r \<noteq> (1, 1)"
  shows "get_binning K c' = (1, 1)"
proof -
  have k: "binning_reg (dev c') = 0 \<or> subsampling_reg (dev c') = 0" and r: "r = get_subsampling K c'"
    using assms(1)
    by (auto simp: set_subsampling_def bind_act_eq_Inr is_SetSubSampling_def lib_check_def Let_def
        split: if_splits)
  have "subsampling_reg (dev c') \<noteq> 0"
  proof
    assume "subsampling_reg (dev c') = 0"
    then have "r = (1, 1)"
      using r by (simp add: get_subsampling_def factor_of_mask_zero)
    then show False
      using assms(2) by simp
  qed
  then show ?thesis
    using k by (simp add: get_binning_def factor_of_mask_zero)
qed

lemma set_roi_binning_resets:
  assumes "set_roi_binning K c hbin vbin = (Inr (), c')"
  shows "(roi_binning_mode c = ''subsample'' \<longrightarrow> get_binning K c' = (1, 1)) \<and>
         (roi_binning_mode c \<noteq> ''subsample'' \<longrightarrow> get_subsampling K c' = (1, 1))"
proof (cases "roi_binning_mode c = ''subsample''")
  case True
  then obtain r c1 where "set_subsampling K c hbin vbin = (Inr r, c1)"
    and "bind_act (set_binning K c1 1 1) (\<lambda>_ c. (Inr (), c)) = (Inr (), c')"
    using assms by (auto simp: set_roi_binning_def bind_act_eq_Inr)
  then have "binning_reg (dev c') = 0"
    by (auto simp: set_binning_one)
  then show ?thesis
    using True by (simp add: get_binning_def factor_of_mask_zero)
next
  case False
  let ?c1 = "c\<lparr>dev := (dev c)\<lparr>subsampling_reg := 0, binning_reg := binning_reg (dev c)\<rparr>\<rparr>"
  from False obtain r where "set_binning K ?c1 hbin vbin = (Inr r, c')"
    using assms by (auto simp: set_roi_binning_def set_subsampling_one bind_act_eq_Inr)
  then have "subsampling_reg (dev c') = 0"
    by (rule set_binning_keeps_zero) simp
  then show ?thesis
    using False by (simp add: get_subsampling_def factor_of_mask_zero)
qed

lemma truncate_roi_binning_subsample:
  assumes "roi_binning_mode c = ''subsample''"
  shows "truncate_roi_binning K c h v =
    Inr (Max {m \<in> set (supp_factors (subsampling_modes K) (supported_subsampling (dev c)) H). m \<le> max h 1},
         Max {m \<in> set (supp_factors (subsampling_modes K) (supported_subsampling (dev c)) V). m \<le> max v 1})"
proof -
  have "\<exists>m\<in>set (supp_factors (subsampling_modes K) (supported_subsampling (dev c)) H). m \<le> max h 1"
    "\<exists>m\<in>set (supp_factors (subsampling_modes K) (supported_subsampling (dev c)) V). m \<le> max v 1"
    using one_in_subsampling by (auto intro: bexI[of _ 1])
  then show ?thesis
    using assms
    by (simp add: truncate_roi_binning_def get_supported_subsampling_modes_def Let_def
        truncate_subsampling_Max)
qed


subsection \<open>Geometry negotiation\<close>

text \<open>
  C1, as amended. For every request and every geometry whose size and position steps are
  not zero, \<^verbatim>\<open>_trunc_roi\<close> returns an ROI; its factors are at least 1 and, in subsample
  mode, members of the supported lists of their axes; on each axis the binned span is at
  least the minimal size and the binned end is at most the binned detector extent; the
  binned start is a multiple of the position step unless the window was shifted left to
  fit (then it is the extent minus the minimal size), and the binned span is a multiple of
  the size step unless it was forced to the minimal size.
\<close>

theorem trunc_roi_adjusted:
  assumes "fst (aoi_size_inc (dev c)) \<noteq> 0" "snd (aoi_size_inc (dev c)) \<noteq> 0"
    and "fst (aoi_pos_inc (dev c)) \<noteq> 0" "snd (aoi_pos_inc (dev c)) \<noteq> 0"
  shows "\<exists>hs he vs ve hb vb.
      trunc_roi K c (hstart, hend, vstart, vend, hbin, vbin) = Inr (hs, he, vs, ve, hb, vb) \<and>
      1 \<le> hb \<and> 1 \<le> vb \<and>
      (roi_binning_mode c = ''subsample'' \<longrightarrow>
         hb \<in> set (fst (get_supported_subsampling_modes K c)) \<and>
         vb \<in> set (snd (get_supported_subsampling_modes K c))) \<and>
      roi_axis_adjusted (fst (aoi_size_min (dev c))) (nMaxWidth (dev c))
        (fst (aoi_size_inc (dev c))) (fst (aoi_pos_inc (dev c))) hb hs he \<and>
      roi_axis_adjusted (snd (aoi_size_min (dev c))) (nMaxHeight (dev c))
        (snd (aoi_size_inc (dev c))) (snd (aoi_pos_inc (dev c))) vb vs ve"
proof -
  let ?M = "if roi_binning_mode c = ''subsample''
            then get_supported_subsampling_modes K c
            else get_supported_binning_modes K c"
  obtain hb vb where t: "truncate_roi_binning K c hbin vbin = Inr (hb, vb)"
    and hb: "hb \<in> set (fst ?M)" "1 \<le> hb" and vb: "vb \<in> set (snd ?M)" "1 \<le> vb"
    using truncate_roi_binning_total[of K c hbin vbin] by blast
  have nz: "hb \<noteq> 0" "vb \<noteq> 0"
    using hb(2) vb(2) by simp_all
  obtain hs he where h: "adj_roi_axis hstart hend (fst (aoi_size_min (dev c))) (nMaxWidth (dev c))
        (fst (aoi_size_inc (dev c))) (fst (aoi_pos_inc (dev c))) hb = Inr (hs, he)"
    and hv: "roi_axis_adjusted (fst (aoi_size_min (dev c))) (nMaxWidth (dev c))
        (fst (aoi_size_inc (dev c))) (fst (aoi_pos_inc (dev c))) hb hs he"
    using adj_roi_axis_adjusted[OF nz(1) assms(3) assms(1)] by blast
  obtain vs ve where v: "adj_roi_axis vstart vend (snd (aoi_size_min (dev c))) (nMaxHeight (dev c))
        (snd (aoi_size_inc (dev c))) (snd (aoi_pos_inc (dev c))) vb = Inr (vs, ve)"
    and vv: "roi_axis_adjusted (snd (aoi_size_min (dev c))) (nMaxHeight (dev c))
        (snd (aoi_size_inc (dev c))) (snd (aoi_pos_inc (dev c))) vb vs ve"
    using adj_roi_axis_adjusted[OF nz(2) assms(4) assms(2)] by blast
  have "trunc_roi K c (hstart, hend, vstart, vend, hbin, vbin) = Inr (hs, he, vs, ve, hb, vb)"
    using t h v by (simp add: trunc_roi_Inr_iff)
  moreover have "roi_binning_mode c = ''subsample'' \<longrightarrow>
         hb \<in> set (fst (get_supported_subsampling_modes K c)) \<and>
         vb \<in> set (snd (get_supported_subsampling_modes K c))"
    using hb(1) vb(1) by (cases "roi_binning_mode c = ''subsample''") simp_all
  ultimately show ?thesis
    using hb(2) vb(2) hv vv by blast
qed

theorem trunc_roi_adjusted_witness:
  "trunc_roi example_defs example_camera (10, Some 1277, 0, None, 3, 1) = Inr (8, 1272, 0, 1024, 2, 1) \<and>
   (\<exists>hs he vs ve hb vb.
      trunc_roi example_defs example_camera (10, Some 1277, 0, None, 3, 1) = Inr (hs, he, vs, ve, hb, vb) \<and>
      hb \<in> set (fst (get_supported_subsampling_modes example_defs example_camera)) \<and>
      roi_axis_adjusted 16 1280 4 2 hb hs he \<and> roi_axis_adjusted 16 1024 4 2 vb vs ve)"
proof -
  have g: "fst (aoi_size_inc (dev example_camera)) \<noteq> 0" "snd (aoi_size_inc (dev example_camera)) \<noteq> 0"
    "fst (aoi_pos_inc (dev example_camera)) \<noteq> 0" "snd (aoi_pos_inc (dev example_camera)) \<noteq> 0"
    by (simp_all add: example_camera_def example_device_def init_attributes_def)
  have e: "trunc_roi example_defs example_camera (10, Some 1277, 0, None, 3, 1) = Inr (8, 1272, 0, 1024, 2, 1)"
    by code_simp
  show ?thesis
    using trunc_roi_adjusted[OF g, of example_defs 10 "Some 1277" 0 None 3 1] e
    by (simp add: example_camera_def example_device_def init_attributes_def)
qed

text \<open>
  C1 as stated fails: on a detector 1278 pixels wide with minimal size 16 and steps 4, the
  request starting at 1270 is shifted left to start at 1262, which is not a multiple of
  the position step.
\<close>

theorem trunc_roi_invariants_counterexample:
  "trunc_roi example_defs narrow_camera (1270, None, 0, None, 1, 1) = Inr (1262, 1278, 0, 1024, 1, 1) \<and>
   \<not> roi_axis_invariants 16 1278 4 4 1 1262 1278"
  by code_simp

text \<open>
  C2, as amended. On a geometry whose steps nest on both axes (the position step divides
  the size step, the size step divides the minimal size, all positive) and whose position
  steps divide the binned detector extents of the negotiated factors, negotiating the
  result of a negotiation returns it unchanged.
\<close>

theorem trunc_roi_idempotent:
  assumes "trunc_roi K c (hstart, hend, vstart, vend, hbin, vbin) = Inr (hs, he, vs, ve, hb, vb)"
    and "steps_nested (fst (aoi_size_min (dev c))) (fst (aoi_size_inc (dev c))) (fst (aoi_pos_inc (dev c)))"
    and "steps_nested (snd (aoi_size_min (dev c))) (snd (aoi_size_inc (dev c))) (snd (aoi_pos_inc (dev c)))"
    and "fst (aoi_pos_inc (dev c)) dvd nMaxWidth (dev c) div hb"
    and "snd (aoi_pos_inc (dev c)) dvd nMaxHeight (dev c) div vb"
  shows "trunc_roi K c (hs, Some he, vs, Some ve, hb, vb) = Inr (hs, he, vs, ve, hb, vb)"
proof -
  let ?M = "if roi_binning_mode c = ''subsample''
            then get_supported_subsampling_modes K c
            else get_supported_binning_modes K c"
  have t: "truncate_roi_binning K c hbin vbin = Inr (hb, vb)"
    and h: "adj_roi_axis hstart hend (fst (aoi_size_min (dev c))) (nMaxWidth (dev c))
        (fst (aoi_size_inc (dev c))) (fst (aoi_pos_inc (dev c))) hb = Inr (hs, he)"
    and v: "adj_roi_axis vstart vend (snd (aoi_size_min (dev c))) (nMaxHeight (dev c))
        (snd (aoi_size_inc (dev c))) (snd (aoi_pos_inc (dev c))) vb = Inr (vs, ve)"
    using assms(1) by (simp_all add: trunc_roi_Inr_iff)
  obtain hb' vb' where t': "truncate_roi_binning K c hbin vbin = Inr (hb', vb')"
    and hb: "hb' \<in> set (fst ?M)" "1 \<le> hb'" and vb: "vb' \<in> set (snd ?M)" "1 \<le> vb'"
    using truncate_roi_binning_total[of K c hbin vbin] by blast
  have same: "hb' = hb" "vb' = vb"
    using t t' by simp_all
  have "truncate_subsampling hb vb (fst ?M, snd ?M) = Inr (hb, vb)"
    using hb vb unfolding same by (rule truncate_subsampling_self)
  then have t2: "truncate_roi_binning K c hb vb = Inr (hb, vb)"
    by (simp add: truncate_roi_binning_def)
  have nz: "hb \<noteq> 0" "vb \<noteq> 0"
    using hb(2) vb(2) same by simp_all
  have h2: "adj_roi_axis hs (Some he) (fst (aoi_size_min (dev c))) (nMaxWidth (dev c))
        (fst (aoi_size_inc (dev c))) (fst (aoi_pos_inc (dev c))) hb = Inr (hs, he)"
    using h nz(1) assms(2) assms(4) by (rule adj_roi_axis_again)
  have v2: "adj_roi_axis vs (Some ve) (snd (aoi_size_min (dev c))) (nMaxHeight (dev c))
        (snd (aoi_size_inc (dev c))) (snd (aoi_pos_inc (dev c))) vb = Inr (vs, ve)"
    using v nz(2) assms(3) assms(5) by (rule adj_roi_axis_again)
  show ?thesis
    using t2 h2 v2 by (simp add: trunc_roi_Inr_iff)
qed

theorem trunc_roi_idempotent_witness:
  "trunc_roi example_defs example_camera (10, Some 1277, 0, None, 3, 1) = Inr (8, 1272, 0, 1024, 2, 1) \<and>
   trunc_roi example_defs example_camera (8, Some 1272, 0, Some 1024, 2, 1) = Inr (8, 1272, 0, 1024, 2, 1)"
proof -
  have e: "trunc_roi example_defs example_camera (10, Some 1277, 0, None, 3, 1) = Inr (8, 1272, 0, 1024, 2, 1)"
    by code_simp
  have g: "steps_nested (fst (aoi_size_min (dev example_camera))) (fst (aoi_size_inc (dev example_camera)))
        (fst (aoi_pos_inc (dev example_camera)))"
    "steps_nested (snd (aoi_size_min (dev example_camera))) (snd (aoi_size_inc (dev example_camera)))
        (snd (aoi_pos_inc (dev example_camera)))"
    "fst (aoi_pos_inc (dev example_camera)) dvd nMaxWidth (dev example_camera) div 2"
    "snd (aoi_pos_inc (dev example_camera)) dvd nMaxHeight (dev example_camera) div 1"
    by (simp_all add: example_camera_def example_device_def init_attributes_def steps_nested_def)
  show ?thesis
    using trunc_roi_idempotent[OF e g] e by simp
qed

text \<open>
  C2 as stated fails: on the detector 1278 pixels wide, the request starting at 1270 is
  negotiated to the window from 1262 to 1278, and negotiating that window gives the
  window from 1260 to 1276.
\<close>

theorem trunc_roi_idempotent_counterexample:
  "trunc_roi example_defs narrow_camera (1270, None, 0, None, 1, 1) = Inr (1262, 1278, 0, 1024, 1, 1) \<and>
   trunc_roi example_defs narrow_camera (1262, Some 1278, 0, Some 1024, 1, 1) = Inr (1260, 1276, 0, 1024, 1, 1)"
  by code_simp

subsection \<open>Factor truncation and the supported factors\<close>

text \<open>
  C6. On a sensor that bins by 2 horizontally only, in bin mode, the truncation of the
  request 2, 1 returns 1, 1, although 2 is the largest supported horizontal factor, and
  the truncation of the request 1, 2 returns 1, 2, although 2 is not a supported vertical
  factor: \<^verbatim>\<open>_truncate_subsampling\<close> unpacks the pair of the binning getter as horizontal,
  vertical, and the getter returns the vertical list first.
\<close>

theorem truncate_roi_binning_wrong_axis:
  "supp_factors (binning_modes example_defs) (supported_binning (dev hbin_camera)) H = [1, 2] \<and>
   supp_factors (binning_modes example_defs) (supported_binning (dev hbin_camera)) V = [1] \<and>
   truncate_roi_binning example_defs hbin_camera 2 1 = Inr (1, 1) \<and>
   truncate_roi_binning example_defs hbin_camera 1 2 = Inr (1, 2)"
  by code_simp

text \<open>
  C7. The binning getter returns the vertical factors first: on a sensor that bins by 2
  horizontally only, it returns 1 for the first list and 1, 2 for the second, where the
  horizontal factors are 1, 2.
\<close>

theorem get_supported_binning_modes_swapped:
  "get_supported_binning_modes example_defs hbin_camera = ([1], [1, 2]) \<and>
   supp_factors (binning_modes example_defs) (supported_binning (dev hbin_camera)) H = [1, 2] \<and>
   supp_factors (binning_modes example_defs) (supported_binning (dev hbin_camera)) V = [1]"
  by code_simp

text \<open>
  C10. For every capability mask, factor 1 is in the horizontal and in the vertical list of
  both getters, and for every requested pair the truncation over either getter's lists
  returns a pair of factors, each at least 1.
\<close>

theorem factor_one_always_supported:
  "1 \<in> set (fst (get_supported_binning_modes K c)) \<and>
   1 \<in> set (snd (get_supported_binning_modes K c)) \<and>
   1 \<in> set (fst (get_supported_subsampling_modes K c)) \<and>
   1 \<in> set (snd (get_supported_subsampling_modes K c)) \<and>
   (\<exists>h' v'. truncate_subsampling h v (get_supported_binning_modes K c) = Inr (h', v') \<and>
      1 \<le> h' \<and> 1 \<le> v') \<and>
   (\<exists>h' v'. truncate_subsampling h v (get_supported_subsampling_modes K c) = Inr (h', v') \<and>
      1 \<le> h' \<and> 1 \<le> v')"
proof -
  have b: "1 \<in> set (fst (get_supported_binning_modes K c))"
    "1 \<in> set (snd (get_supported_binning_modes K c))"
    by (simp_all add: get_supported_binning_modes_def Let_def one_in_binning)
  have s: "1 \<in> set (fst (get_supported_subsampling_modes K c))"
    "1 \<in> set (snd (get_supported_subsampling_modes K c))"
    by (simp_all add: get_supported_subsampling_modes_def Let_def one_in_subsampling)
  have "\<exists>h' v'. truncate_subsampling h v
      (fst (get_supported_binning_modes K c), snd (get_supported_binning_modes K c)) = Inr (h', v') \<and>
      1 \<le> h' \<and> 1 \<le> v'"
    using truncate_subsampling_total[OF b, of h v] by blast
  moreover have "\<exists>h' v'. truncate_subsampling h v
      (fst (get_supported_subsampling_modes K c), snd (get_supported_subsampling_modes K c)) = Inr (h', v') \<and>
      1 \<le> h' \<and> 1 \<le> v'"
    using truncate_subsampling_total[OF s, of h v] by blast
  ultimately show ?thesis
    using b s by simp
qed

subsection \<open>Acquisition\<close>

text \<open>
  C3. In every state of the camera object \<^verbatim>\<open>stop_acquisition\<close> raises \<^verbatim>\<open>TypeError\<close> and
  changes nothing: its test calls the attribute \<^verbatim>\<open>_acq_in_progress\<close>, which is a \<^verbatim>\<open>bool\<close>.
  So the first of two calls in a row already raises.
\<close>

theorem stop_acquisition_raises:
  "stop_acquisition c = (Inl TypeError, c)"
  by (simp add: stop_acquisition_def py_call_bool_def)

subsection \<open>The buffer pool\<close>

text \<open>
  C4, as amended. When the device rejects the allocation number \<open>j\<close> of a pool of \<open>n\<close>
  buffers (and none before it), \<^verbatim>\<open>_allocate_buffers\<close> fails with the error of the device,
  and nothing is rolled back: the \<open>j\<close> buffers allocated before stay in \<^verbatim>\<open>_buffers\<close>,
  allocated and in the capture sequence. The next \<^verbatim>\<open>_deallocate_buffers\<close> clears the
  sequence and frees them.
\<close>

theorem allocate_buffers_keeps_partial:
  assumes "get_data_dimensions_rc K c = Inr dims"
    and "get_pixel_mode_settings K c = Inr (Some p)"
    and "j < nat n"
    and "mem_rejects (dev c) (alloc_calls (dev c) + j)"
    and "\<forall>i<j. \<not> mem_rejects (dev c) (alloc_calls (dev c) + i)"
  shows "\<exists>c' new. allocate_buffers K c n = (Inl (uc480LibError (- 1)), c') \<and> length new = j \<and>
           buffers c' = Some new \<and>
           allocated (dev c') = allocated (dev (deallocate_buffers c)) @ new \<and>
           sequence (dev c') = sequence (dev (deallocate_buffers c)) @ new \<and>
           buffers (deallocate_buffers c') = None \<and>
           sequence (dev (deallocate_buffers c')) = [] \<and>
           set new \<inter> set (allocated (dev (deallocate_buffers c'))) = {}"
proof -
  let ?c1 = "(deallocate_buffers c)\<lparr>buffers := Some []\<rparr>"
  have a: "buffers ?c1 = Some []" by simp
  have b: "mem_rejects (dev ?c1) (alloc_calls (dev ?c1) + j)"
    using assms(4) by (simp add: deallocate_buffers_frame)
  have c: "\<forall>i<j. \<not> mem_rejects (dev ?c1) (alloc_calls (dev ?c1) + i)"
    using assms(5) by (simp add: deallocate_buffers_frame)
  obtain c' new where r: "alloc_loop (nat n) (snd dims, fst dims) (fst p) ?c1 = (Inl (uc480LibError (- 1)), c')"
      "length new = j" "buffers c' = Some ([] @ new)"
      "allocated (dev c') = allocated (dev ?c1) @ new"
      "sequence (dev c') = sequence (dev ?c1) @ new"
    using alloc_loop_reject[OF a assms(3) b c] by blast
  have e: "allocate_buffers K c n = (Inl (uc480LibError (- 1)), c')"
    using assms(1,2) r(1) by (simp add: allocate_buffers_def Let_def deallocate_buffers_frame)
  have f: "buffers (deallocate_buffers c') = None" "sequence (dev (deallocate_buffers c')) = []"
    "set new \<inter> set (allocated (dev (deallocate_buffers c'))) = {}"
    using r(3) by (auto simp: deallocate_buffers_eq)
  show ?thesis
    using e r(2,3,4,5) f by (intro exI[of _ c'] exI[of _ new]) simp
qed

theorem allocate_buffers_keeps_partial_witness:
  "\<exists>c' new. allocate_buffers example_defs small_memory_camera 5 = (Inl (uc480LibError (- 1)), c') \<and>
     length new = 2 \<and> buffers c' = Some new \<and>
     sequence (dev c') = sequence (dev (deallocate_buffers small_memory_camera)) @ new \<and>
     buffers (deallocate_buffers c') = None \<and>
     sequence (dev (deallocate_buffers c')) = [] \<and>
     set new \<inter> set (allocated (dev (deallocate_buffers c'))) = {}"
proof -
  have h1: "get_data_dimensions_rc example_defs small_memory_camera = Inr (1024, 1280)"
    by code_simp
  have h2: "get_pixel_mode_settings example_defs small_memory_camera = Inr (Some (8, 1))"
    by code_simp
  have h3: "2 < nat 5"
    by simp
  have h4: "mem_rejects (dev small_memory_camera) (alloc_calls (dev small_memory_camera) + 2)"
    by (simp add: small_memory_camera_def init_attributes_def example_device_def)
  have h5: "\<forall>i<2. \<not> mem_rejects (dev small_memory_camera) (alloc_calls (dev small_memory_camera) + i)"
    by (simp add: small_memory_camera_def init_attributes_def example_device_def)
  show ?thesis
    using allocate_buffers_keeps_partial[OF h1 h2 h3 h4 h5] by blast
qed

text \<open>
  C4 as stated fails: on a device that rejects the third allocation, the failed call for
  five buffers leaves the first two in \<^verbatim>\<open>_buffers\<close>, allocated and in the sequence.
\<close>

theorem allocate_buffers_rollback_counterexample:
  "fst (allocate_buffers example_defs small_memory_camera 5) = Inl (uc480LibError (- 1)) \<and>
   buffers (snd (allocate_buffers example_defs small_memory_camera 5)) = Some [(1, 1), (2, 2)] \<and>
   allocated (dev (snd (allocate_buffers example_defs small_memory_camera 5))) = [(1, 1), (2, 2)] \<and>
   sequence (dev (snd (allocate_buffers example_defs small_memory_camera 5))) = [(1, 1), (2, 2)]"
  by code_simp

subsection \<open>Binning and subsampling\<close>

text \<open>
  C5. Binning and subsampling are mutually exclusive, for each of the three setters.
  When \<^verbatim>\<open>set_binning\<close> succeeds and the binning it returns is not 1, 1, the subsampling
  reads back 1, 1; when \<^verbatim>\<open>set_subsampling\<close> succeeds and the subsampling it returns is not
  1, 1, the binning reads back 1, 1; and when \<^verbatim>\<open>_set_roi_binning\<close> succeeds, the factors of
  the mode that is not the ROI mode read back 1, 1.
\<close>

theorem mode_setters_exclusive:
  "(set_binning K c hbin vbin = (Inr r, c') \<longrightarrow> r \<noteq> (1, 1) \<longrightarrow> get_subsampling K c' = (1, 1)) \<and>
   (set_subsampling K c hbin vbin = (Inr r, c') \<longrightarrow> r \<noteq> (1, 1) \<longrightarrow> get_binning K c' = (1, 1)) \<and>
   (set_roi_binning K c hbin vbin = (Inr (), c') \<longrightarrow>
      (roi_binning_mode c = ''subsample'' \<longrightarrow> get_binning K c' = (1, 1)) \<and>
      (roi_binning_mode c \<noteq> ''subsample'' \<longrightarrow> get_subsampling K c' = (1, 1)))"
  using set_binning_resets[of K c hbin vbin r c'] set_subsampling_resets[of K c hbin vbin r c']
    set_roi_binning_resets[of K c hbin vbin c']
  by blast

theorem mode_setters_exclusive_witness:
  "get_subsampling example_defs subsampling_active_camera = (2, 2) \<and>
   fst (set_binning example_defs subsampling_active_camera 2 2) = Inr (2, 2) \<and>
   get_subsampling example_defs (snd (set_binning example_defs subsampling_active_camera 2 2)) = (1, 1) \<and>
   get_binning example_defs binning_active_camera = (2, 2) \<and>
   fst (set_subsampling example_defs binning_active_camera 2 2) = Inr (2, 2) \<and>
   get_binning example_defs (snd (set_subsampling example_defs binning_active_camera 2 2)) = (1, 1) \<and>
   fst (set_roi_binning example_defs subsampling_active_camera 2 2) = Inr () \<and>
   get_subsampling example_defs (snd (set_roi_binning example_defs subsampling_active_camera 2 2)) = (1, 1) \<and>
   fst (set_roi_binning example_defs binning_active_camera 2 2) = Inr () \<and>
   get_binning example_defs (snd (set_roi_binning example_defs binning_active_camera 2 2)) = (1, 1)"
proof -
  have g: "get_subsampling example_defs subsampling_active_camera = (2, 2)"
    "get_binning example_defs binning_active_camera = (2, 2)"
    by code_simp+
  have f1: "fst (set_binning example_defs subsampling_active_camera 2 2) = Inr (2, 2)"
    by code_simp
  then have h1: "set_binning example_defs subsampling_active_camera 2 2 =
      (Inr (2, 2), snd (set_binning example_defs subsampling_active_camera 2 2))"
    by (metis prod.collapse)
  have f2: "fst (set_subsampling example_defs binning_active_camera 2 2) = Inr (2, 2)"
    by code_simp
  then have h2: "set_subsampling example_defs binning_active_camera 2 2 =
      (Inr (2, 2), snd (set_subsampling example_defs binning_active_camera 2 2))"
    by (metis prod.collapse)
  have f3: "fst (set_roi_binning example_defs subsampling_active_camera 2 2) = Inr ()"
    by code_simp
  then have h3: "set_roi_binning example_defs subsampling_active_camera 2 2 =
      (Inr (), snd (set_roi_binning example_defs subsampling_active_camera 2 2))"
    by (metis prod.collapse)
  have f4: "fst (set_roi_binning example_defs binning_active_camera 2 2) = Inr ()"
    by code_simp
  then have h4: "set_roi_binning example_defs binning_active_camera 2 2 =
      (Inr (), snd (set_roi_binning example_defs binning_active_camera 2 2))"
    by (metis prod.collapse)
  have m: "roi_binning_mode subsampling_active_camera \<noteq> ''subsample''"
    "roi_binning_mode binning_active_camera = ''subsample''"
    by (simp_all add: subsampling_active_camera_def binning_active_camera_def init_attributes_def)
  have n: "(2, 2) \<noteq> (1::int, 1::int)"
    by simp
  show ?thesis
    using mode_setters_exclusive[of example_defs subsampling_active_camera 2 2 "(2, 2)"
        "snd (set_binning example_defs subsampling_active_camera 2 2)"]
      mode_setters_exclusive[of example_defs binning_active_camera 2 2 "(2, 2)"
        "snd (set_subsampling example_defs binning_active_camera 2 2)"]
      mode_setters_exclusive[of example_defs subsampling_active_camera 2 2 "(2, 2)"
        "snd (set_roi_binning example_defs subsampling_active_camera 2 2)"]
      mode_setters_exclusive[of example_defs binning_active_camera 2 2 "(2, 2)"
        "snd (set_roi_binning example_defs binning_active_camera 2 2)"]
      g f1 h1 f2 h2 f3 h3 f4 h4 m n
    by blast
qed

subsection \<open>Frame decoding\<close>

text \<open>
  Scenario D of the spec: in mode mono16 a frame of 64 by 48 is read as an array of shape
  48, 64 with elements of 2 bytes.
\<close>

lemma read_buffer_mono16:
  "read_buffer example_defs mono16_camera 0 = Inr (\<lparr>shape = [48, 64], dtype = ''<u2''\<rparr>, (64, 48)) \<and>
   itemsize ''<u2'' = 2"
  by code_simp

text \<open>
  C8. In mode rgb10p, which the table \<^verbatim>\<open>_mode_properties\<close> gives 24 bits and 1 channel,
  reading a frame raises \<^verbatim>\<open>KeyError\<close>: \<^verbatim>\<open>_np_dtypes\<close> has no entry for 24.
\<close>

theorem read_buffer_rgb10p_raises:
  "get_pixel_mode_settings example_defs rgb10p_camera = Inr (Some (24, 1)) \<and>
   map_of np_dtypes (24 div 1) = None \<and>
   read_buffer example_defs rgb10p_camera 0 = Inl KeyError"
  by code_simp

subsection \<open>Probing the color modes\<close>




end
